theory Spec2Isabelle
  imports Main "HOL-Library.Sublist"
begin

section \<open>Data model\<close>

text \<open>
  DOM nodes, elements and \<open>XMLDocument\<close>s are JavaScript object references; they are
  modelled by their identity.
\<close>

type_synonym node = nat

text \<open>
  The edit type of the API (\<open>EditV2 = Insert | SetAttributes | SetTextContent | Remove | Edit[]\<close>).
  \<open>Insert\<close> carries parent, node and reference (\<open>null\<close> is \<open>None\<close>); an attribute
  record maps a name to a string or to \<open>null\<close>; a namespaced attribute record maps a
  namespace URI to such a record.
\<close>

datatype edit =
    Insert node node "node option"
  | Remove node
  | SetAttributes node "(string \<times> string option) list"
      "(string \<times> (string \<times> string option) list) list"
  | SetTextContent node string
  | Compound "edit list"

text \<open>
  \<open>LogEntry = { undo: Edit; redo: Edit; title?: string }\<close>. The history code never looks
  inside an edit, so the entry is polymorphic in the edit type (it serves the deprecated
  \<open>Insert | Update | Remove | Edit[]\<close> type as well).
\<close>

record 'e LogEntry =
  undo_edit :: 'e
  redo_edit :: 'e
  title :: "string option"

text \<open>\<open>Plugin\<close> and \<open>PluginSet\<close> of \<open>open-scd.ts\<close>.\<close>

record Plugin =
  name :: string
  translations_de :: "(string \<times> string) list option"
  src :: string
  icon :: string
  requireDoc :: "bool option"
  active :: "bool option"

datatype kind = Menu | Editor

record PluginSet =
  menu :: "Plugin list"
  editor :: "Plugin list"

text \<open>
  The fields of the \<open>OpenSCD\<close> element that the edit, document and plugin code reads
  and writes. \<open>domTree\<close> is the state of the DOM in which the documents of \<open>docs\<close> live: it
  is what \<open>handleEdit\<close> mutates. \<open>editCount\<close> is a JavaScript number and is kept as an
  integer. \<open>docs\<close> is a plain JavaScript object, created as \<open>{}\<close>: the field \<open>docs\<close> holds
  its own properties, and \<open>docs_proto\<close> the document that an assignment to the key
  \<open>__proto__\<close> has made its prototype (\<open>None\<close> while the prototype is still
  \<open>Object.prototype\<close>).
\<close>

record ('d, 'e) OpenSCD =
  domTree :: 'd
  history :: "'e LogEntry list"
  editCount :: int
  docs :: "string \<rightharpoonup> node"
  docs_proto :: "node option"
  docName :: string
  editable :: "string list"
  loadedPlugins :: PluginSet
  loadedPluginTagNames :: "string list"
  plugins :: PluginSet

text \<open>
  What a method call can end in: it returns, leaving a state (\<open>Inr\<close>), or it throws,
  leaving the state as mutated up to the throw (\<open>Inl\<close>).
\<close>

datatype error = TypeError | EditRejected

type_synonym ('d, 'e) outcome = "(error \<times> ('d, 'e) OpenSCD) + ('d, 'e) OpenSCD"

text \<open>
  \<open>handleEdit\<close> is imported from \<open>foundation.js\<close>; its code is not at hand. The
  history code takes it as a parameter: applied to an edit and the DOM it either fails
  (\<open>None\<close>, an exception in the caller) or yields the mutated DOM and the inverse edit.
\<close>

type_synonym ('d, 'e) engine = "'e \<Rightarrow> 'd \<Rightarrow> ('d \<times> 'e) option"

section \<open>JavaScript arrays\<close>

text \<open>
  \<open>array.splice(start)\<close> removes every element from \<open>start\<close> on; a negative \<open>start\<close>
  counts from the end, and \<open>start\<close> is clamped to the length.
\<close>

definition array_splice :: "int \<Rightarrow> 'a list \<Rightarrow> 'a list" where
  "array_splice start xs =
     (let len = int (length xs);
          first = (if start < 0 then max (len + start) 0 else min start len)
      in take (nat first) xs)"

text \<open>\<open>array[i]\<close> is \<open>undefined\<close> (here \<open>None\<close>) outside the array.\<close>

definition at_index :: "'a list \<Rightarrow> int \<Rightarrow> 'a option" where
  "at_index xs i = (if 0 \<le> i \<and> i < int (length xs) then Some (xs ! nat i) else None)"

section \<open>History: the getters, \<open>handleEditEvent\<close>, \<open>undo\<close> and \<open>redo\<close>\<close>

definition last_index :: "('d, 'e) OpenSCD \<Rightarrow> int" where
  "last_index s = editCount s - 1"

definition canUndo :: "('d, 'e) OpenSCD \<Rightarrow> bool" where
  "canUndo s = (last_index s \<ge> 0)"

definition canRedo :: "('d, 'e) OpenSCD \<Rightarrow> bool" where
  "canRedo s = (editCount s < int (length (history s)))"

text \<open>
  \<^verbatim>\<open>
  handleEditEvent(event: EditEvent) {
    const edit = event.detail;
    this.history.splice(this.editCount);
    this.history.push({ undo: handleEdit(edit), redo: edit });
    this.editCount += 1;
  }
  \<close>
  The splice comes first, so a throwing \<open>handleEdit\<close> leaves the history truncated.
\<close>

definition handleEditEvent ::
  "('d, 'e) engine \<Rightarrow> 'e \<Rightarrow> ('d, 'e) OpenSCD \<Rightarrow> ('d, 'e) outcome" where
  "handleEditEvent engine e s =
     (let s1 = s\<lparr>history := array_splice (editCount s) (history s)\<rparr>
      in case engine e (domTree s1) of
           None \<Rightarrow> Inl (EditRejected, s1)
         | Some (d, u) \<Rightarrow>
             Inr (s1\<lparr>domTree := d,
                     history := history s1 @ [\<lparr>undo_edit = u, redo_edit = e, title = None\<rparr>],
                     editCount := editCount s1 + 1\<rparr>))"

text \<open>
  \<^verbatim>\<open>
  undo(n = 1) {
    if (!this.canUndo || n < 1) return;
    handleEdit(this.history[this.last!].undo);
    this.editCount -= 1;
    if (n > 1) this.undo(n - 1);
  }
  \<close>
  Reading \<open>.undo\<close> of an \<open>undefined\<close> entry is a \<open>TypeError\<close>. The inverse that
  \<open>handleEdit\<close> returns is dropped.
\<close>

function undo :: "('d, 'e) engine \<Rightarrow> int \<Rightarrow> ('d, 'e) OpenSCD \<Rightarrow> ('d, 'e) outcome" where
  "undo engine n s =
     (if \<not> canUndo s \<or> n < 1 then Inr s
      else case at_index (history s) (last_index s) of
             None \<Rightarrow> Inl (TypeError, s)
           | Some entry \<Rightarrow>
               (case engine (undo_edit entry) (domTree s) of
                  None \<Rightarrow> Inl (EditRejected, s)
                | Some (d, u) \<Rightarrow>
                    (let s' = s\<lparr>domTree := d, editCount := editCount s - 1\<rparr>
                     in if n > 1 then undo engine (n - 1) s' else Inr s')))"
  by pat_completeness auto
termination
  by (relation "measure (\<lambda>(h, n, s). nat n)") auto

text \<open>
  \<^verbatim>\<open>
  redo(n = 1) {
    if (!this.canRedo || n < 1) return;
    handleEdit(this.history[this.editCount].redo);
    this.editCount += 1;
    if (n > 1) this.redo(n - 1);
  }
  \<close>
\<close>

function redo :: "('d, 'e) engine \<Rightarrow> int \<Rightarrow> ('d, 'e) OpenSCD \<Rightarrow> ('d, 'e) outcome" where
  "redo engine n s =
     (if \<not> canRedo s \<or> n < 1 then Inr s
      else case at_index (history s) (editCount s) of
             None \<Rightarrow> Inl (TypeError, s)
           | Some entry \<Rightarrow>
               (case engine (redo_edit entry) (domTree s) of
                  None \<Rightarrow> Inl (EditRejected, s)
                | Some (d, u) \<Rightarrow>
                    (let s' = s\<lparr>domTree := d, editCount := editCount s + 1\<rparr>
                     in if n > 1 then redo engine (n - 1) s' else Inr s')))"
  by pat_completeness auto
termination
  by (relation "measure (\<lambda>(h, n, s). nat n)") auto

declare undo.simps [simp del] redo.simps [simp del]

section \<open>Running the history operations\<close>

text \<open>The spec's data-model invariant: the cursor lies in \<open>[0, history.length]\<close>.\<close>

definition cursor_in_range :: "('d, 'e) OpenSCD \<Rightarrow> bool" where
  "cursor_in_range s = (0 \<le> editCount s \<and> editCount s \<le> int (length (history s)))"

text \<open>The state a call leaves behind, whether it returned or threw.\<close>

definition state_of :: "('d, 'e) outcome \<Rightarrow> ('d, 'e) OpenSCD" where
  "state_of r = (case r of Inl (err, s) \<Rightarrow> s | Inr s \<Rightarrow> s)"

text \<open>
  A script of calls, one after the other: a call that throws ends the script.
\<close>

definition and_then ::
  "('d, 'e) outcome \<Rightarrow> (('d, 'e) OpenSCD \<Rightarrow> ('d, 'e) outcome) \<Rightarrow> ('d, 'e) outcome" where
  "and_then r f = (case r of Inl x \<Rightarrow> Inl x | Inr s \<Rightarrow> f s)"

text \<open>
  The history operations as events handled one by one: the element lives on after a
  handler has thrown, and the next event finds the state the throw left behind.
\<close>

datatype 'e history_op = Commit 'e | Undo int | Redo int

fun history_step :: "('d, 'e) engine \<Rightarrow> 'e history_op \<Rightarrow> ('d, 'e) OpenSCD \<Rightarrow> ('d, 'e) outcome" where
  "history_step engine (Commit e) s = handleEditEvent engine e s"
| "history_step engine (Undo n) s = undo engine n s"
| "history_step engine (Redo n) s = redo engine n s"

fun run_history :: "('d, 'e) engine \<Rightarrow> 'e history_op list \<Rightarrow> ('d, 'e) OpenSCD \<Rightarrow> ('d, 'e) OpenSCD" where
  "run_history engine [] s = s"
| "run_history engine (x # xs) s = run_history engine xs (state_of (history_step engine x s))"

text \<open>
  The element as its field initialisers leave it (\<open>history = []\<close>, \<open>editCount = 0\<close>,
  \<open>docs = {}\<close>, \<open>docName = ''\<close>, the six default extensions, no plugins), over a DOM \<open>d\<close>.
\<close>

definition initial :: "'d \<Rightarrow> ('d, 'e) OpenSCD" where
  "initial d =
     \<lparr>domTree = d, history = [], editCount = 0, docs = Map.empty, docs_proto = None,
      docName = [],
      editable = [''cid'', ''icd'', ''iid'', ''scd'', ''sed'', ''ssd''],
      loadedPlugins = \<lparr>menu = [], editor = []\<rparr>, loadedPluginTagNames = [],
      plugins = \<lparr>menu = [], editor = []\<rparr>\<rparr>"

text \<open>
  Modelled from the spec: one atomic rule of the Edit Engine (section 4.1), used as a
  concrete engine in the examples. The DOM is reduced to the text content of its elements
  (element \<open>n\<close> is attached when \<open>n\<close> is within the list). \<open>SetTextContent\<close> on an attached
  element replaces its text and has the \<open>SetTextContent\<close> of the prior text as inverse; an
  element that is not attached, and the three structural edits, are rejected.
\<close>

definition setTextOnly :: "edit \<Rightarrow> string list \<Rightarrow> (string list \<times> edit) option" where
  "setTextOnly e d =
     (case e of
        SetTextContent el t \<Rightarrow>
          if el < length d then Some (d[el := t], SetTextContent el (d ! el)) else None
      | _ \<Rightarrow> None)"

section \<open>The Edit Engine\<close>

text \<open>
  Modelled from the spec: the Edit Engine (\<open>handleEdit\<close> of \<open>foundation.js\<close>, of which
  only the import is at hand), as section 4.1 of the spec describes its rule for \<open>Compound\<close>: apply
  each member in order; the inverse is the \<open>Compound\<close> of the members' inverses in reversed
  order. The effect of the four atomic edits on the DOM, and their inverses, is the
  parameter \<open>atomic\<close>, which fails (\<open>None\<close>) on an edit it rejects. A \<open>Compound\<close> with a
  failing member fails as a whole and yields no new DOM.
\<close>

fun handleEdit :: "(edit \<Rightarrow> 'd \<Rightarrow> ('d \<times> edit) option) \<Rightarrow> edit \<Rightarrow> 'd \<Rightarrow> ('d \<times> edit) option"
and handleEdits ::
  "(edit \<Rightarrow> 'd \<Rightarrow> ('d \<times> edit) option) \<Rightarrow> edit list \<Rightarrow> 'd \<Rightarrow> ('d \<times> edit list) option" where
  "handleEdit atomic (Compound es) d =
     (case handleEdits atomic es d of
        None \<Rightarrow> None
      | Some (d', us) \<Rightarrow> Some (d', Compound (rev us)))"
| "handleEdit atomic (Insert p n r) d = atomic (Insert p n r) d"
| "handleEdit atomic (Remove n) d = atomic (Remove n) d"
| "handleEdit atomic (SetAttributes el as ans) d = atomic (SetAttributes el as ans) d"
| "handleEdit atomic (SetTextContent el t) d = atomic (SetTextContent el t) d"
| "handleEdits atomic [] d = Some (d, [])"
| "handleEdits atomic (e # es) d =
     (case handleEdit atomic e d of
        None \<Rightarrow> None
      | Some (d1, u) \<Rightarrow>
          (case handleEdits atomic es d1 of
             None \<Rightarrow> None
           | Some (d2, us) \<Rightarrow> Some (d2, u # us)))"

section \<open>Commit with options\<close>



section \<open>The wizard request queue\<close>

text \<open>
  \<open>EditWizardRequest { element, subWizard? }\<close> and
  \<open>CreateWizardRequest { parent, tagName, subWizard? }\<close> of the API.
\<close>

datatype WizardRequest =
    EditWizardRequest node "bool option"
  | CreateWizardRequest node string "bool option"

fun subWizard :: "WizardRequest \<Rightarrow> bool option" where
  "subWizard (EditWizardRequest el sub) = sub"
| "subWizard (CreateWizardRequest parent tagName sub) = sub"

text \<open>
  Modelled from the spec: the handler of the edit-wizard and create-wizard requests, and
  the \<open>workflow\<close> array it works on. The repository's event constructors, its
  \<open>code-wizard\<close> component (which dispatches the close signal) and its tests are at hand,
  the handlers are not. Section 4.3 of the spec: a request with \<open>subWizard\<close> falsy is
  appended to the end of \<open>workflow\<close>, a request with \<open>subWizard\<close> true is inserted at the
  front.
\<close>

definition handleWizardRequest :: "WizardRequest \<Rightarrow> WizardRequest list \<Rightarrow> WizardRequest list" where
  "handleWizardRequest r workflow =
     (if subWizard r = Some True then r # workflow else workflow @ [r])"

text \<open>
  Modelled from the spec: the handler of the close signal (section 4.3), which removes
  \<open>workflow[0]\<close> whatever request the signal carries.
\<close>

definition closeWizard :: "WizardRequest \<Rightarrow> WizardRequest list \<Rightarrow> WizardRequest list" where
  "closeWizard r workflow = drop 1 workflow"

text \<open>
  Modelled from the spec: the active request, \<open>workflow[0]\<close>, the only one exposed to
  rendering (section 4.3); none when the queue is empty.
\<close>

definition activeWizard :: "WizardRequest list \<Rightarrow> WizardRequest option" where
  "activeWizard workflow = (case workflow of [] \<Rightarrow> None | r # rest \<Rightarrow> Some r)"

text \<open>A sequence of wizard events, applied from the left.\<close>

datatype wizard_event = Request WizardRequest | Close WizardRequest

fun wizard_step :: "WizardRequest list \<Rightarrow> wizard_event \<Rightarrow> WizardRequest list" where
  "wizard_step workflow (Request r) = handleWizardRequest r workflow"
| "wizard_step workflow (Close r) = closeWizard r workflow"

section \<open>Opening documents\<close>

text \<open>
  \<open>String.prototype.toLowerCase\<close>, on the ASCII letters (a \<open>char\<close> is a byte; the
  default extensions and the usual file names are ASCII).
\<close>

definition lower_char :: "char \<Rightarrow> char" where
  "lower_char c =
     (case map_of (zip ''ABCDEFGHIJKLMNOPQRSTUVWXYZ'' ''abcdefghijklmnopqrstuvwxyz'') c of
        None \<Rightarrow> c
      | Some l \<Rightarrow> l)"

definition toLowerCase :: "string \<Rightarrow> string" where
  "toLowerCase str = map lower_char str"

text \<open>\<open>str.endsWith(sfx)\<close>.\<close>

definition endsWith :: "string \<Rightarrow> string \<Rightarrow> bool" where
  "endsWith str sfx =
     (length sfx \<le> length str \<and> drop (length str - length sfx) str = sfx)"

text \<open>
  \<^verbatim>\<open>
  isEditable(docName: string): boolean {
    return !!this.editable.find(ext =>
      docName.toLowerCase().endsWith(`.${ext}`)
    );
  }
  \<close>
  \<open>find\<close> yields the first matching extension or \<open>undefined\<close>; \<open>!!\<close> of it is false for
  \<open>undefined\<close> and for the empty string.
\<close>

definition isEditable :: "('d, 'e) OpenSCD \<Rightarrow> string \<Rightarrow> bool" where
  "isEditable s name' =
     (case find (\<lambda>ext. endsWith (toLowerCase name') (''.'' @ ext)) (editable s) of
        None \<Rightarrow> False
      | Some ext \<Rightarrow> ext \<noteq> [])"

text \<open>
  The assignment \<open>this.docs[key] = doc\<close> on the plain object \<open>docs\<close>, in strict code (the
  file is a module). An own property of that name is overwritten. Otherwise the prototype
  chain decides. When the prototype is a document (after an earlier assignment to
  \<open>__proto__\<close>), the document may refuse the name: it inherits the name as an attribute (an
  accessor that rejects a receiver which is no document, or that has no setter) or as a
  constant, or exposes it as a named property; the assignment then throws a \<open>TypeError\<close>.
  Which names a document refuses is the parameter \<open>documentRefuses\<close>. The key \<open>__proto__\<close>
  reaches the accessor of \<open>Object.prototype\<close>, whose setter makes \<open>doc\<close> the prototype of
  \<open>docs\<close> and creates no property. Every other key becomes an own property (the other
  properties of \<open>Object.prototype\<close>, and the methods of a document, are writable data
  properties).
\<close>

definition docs_assign ::
  "(node \<Rightarrow> string \<Rightarrow> bool) \<Rightarrow> string \<Rightarrow> node \<Rightarrow> ('d, 'e) OpenSCD \<Rightarrow> ('d, 'e) outcome" where
  "docs_assign documentRefuses key doc s =
     (if docs s key \<noteq> None then Inr (s\<lparr>docs := (docs s)(key \<mapsto> doc)\<rparr>)
      else if (case docs_proto s of None \<Rightarrow> False | Some d \<Rightarrow> documentRefuses d key)
        then Inl (TypeError, s)
      else if key = ''__proto__'' then Inr (s\<lparr>docs_proto := Some doc\<rparr>)
      else Inr (s\<lparr>docs := (docs s)(key \<mapsto> doc)\<rparr>))"

text \<open>
  \<^verbatim>\<open>
  handleOpenDoc({ detail: { docName, doc } }: OpenEvent) {
    this.docs[docName] = doc;
    if (this.isEditable(docName)) this.docName = docName;
    this.requestUpdate();
  }
  \<close>
  \<open>requestUpdate\<close> schedules rendering and changes none of the fields. When the assignment
  throws, the rest does not run.
\<close>

definition handleOpenDoc ::
  "(node \<Rightarrow> string \<Rightarrow> bool) \<Rightarrow> string \<Rightarrow> node \<Rightarrow> ('d, 'e) OpenSCD \<Rightarrow> ('d, 'e) outcome" where
  "handleOpenDoc documentRefuses name' doc s =
     (case docs_assign documentRefuses name' doc s of
        Inl thrown \<Rightarrow> Inl thrown
      | Inr s1 \<Rightarrow> Inr (if isEditable s1 name' then s1\<lparr>docName := name'\<rparr> else s1))"

text \<open>
  The name ends, up to the case of its letters, in a dot followed by the extension.
\<close>

definition has_extension :: "string \<Rightarrow> string \<Rightarrow> bool" where
  "has_extension name' ext =
     (length ext < length name' \<and>
      toLowerCase (drop (length name' - Suc (length ext)) name') = toLowerCase (''.'' @ ext))"

section \<open>The plugin registry\<close>

text \<open>
  What the \<open>plugins\<close> setter works on besides the element itself: the module-level cache
  \<open>pluginTags\<close>, the browser's custom element registry (a tag is bound to the class a
  module exports by default, of type \<open>'c\<close>), and the dynamic imports. An \<open>import(url)\<close>
  call is recorded in \<open>importCalls\<close> and a \<open>customElements.define\<close> call in
  \<open>defineCalls\<close>; the \<open>then\<close> callback of an import that has not settled yet waits in
  \<open>pendingImports\<close> with the values it has captured (tag, kind and plugin).
\<close>

record ('d, 'e, 'c) page =
  element :: "('d, 'e) OpenSCD"
  pluginTags :: "string \<rightharpoonup> string"
  customElements :: "string \<rightharpoonup> 'c"
  importCalls :: "string list"
  defineCalls :: "string list"
  pendingImports :: "(string \<times> kind \<times> Plugin) list"

text \<open>
  \<^verbatim>\<open>
  function pluginTag(uri: string): string {
    if (!pluginTags.has(uri)) pluginTags.set(uri, `oscd-p${cyrb64(uri)}`);
    return pluginTags.get(uri)!;
  }
  \<close>
  The hash \<open>cyrb64\<close> comes from \<open>foundation.js\<close> and is a parameter.
\<close>

definition pluginTag ::
  "(string \<Rightarrow> string) \<Rightarrow> string \<Rightarrow> (string \<rightharpoonup> string) \<Rightarrow> string \<times> (string \<rightharpoonup> string)" where
  "pluginTag cyrb64 uri tags =
     (case tags uri of
        None \<Rightarrow> (''oscd-p'' @ cyrb64 uri, tags(uri \<mapsto> ''oscd-p'' @ cyrb64 uri))
      | Some tag \<Rightarrow> (tag, tags))"

text \<open>
  \<^verbatim>\<open>
  addLoadedPlugin(tagName: string, kind: keyof PluginSet, plugin: Plugin) {
    this.#loadedPlugins[kind].push(plugin);
    this.#loadedPluginTagNames.push(tagName);
  }
  \<close>
\<close>

definition addLoadedPlugin ::
  "string \<Rightarrow> kind \<Rightarrow> Plugin \<Rightarrow> ('d, 'e) OpenSCD \<Rightarrow> ('d, 'e) OpenSCD" where
  "addLoadedPlugin tagName pluginType plugin s =
     s\<lparr>loadedPlugins :=
         (case pluginType of
            Menu \<Rightarrow> (loadedPlugins s)\<lparr>menu := menu (loadedPlugins s) @ [plugin]\<rparr>
          | Editor \<Rightarrow> (loadedPlugins s)\<lparr>editor := editor (loadedPlugins s) @ [plugin]\<rparr>),
       loadedPluginTagNames := loadedPluginTagNames s @ [tagName]\<rparr>"

text \<open>
  The body of the inner \<open>forEach\<close> of the setter, for one plugin of one kind:
  \<^verbatim>\<open>
        const tagName = pluginTag(plugin.src);
        if (this.#loadedPluginTagNames.includes(tagName)) {
          return;
        }
        if (customElements.get(tagName)) {
          this.addLoadedPlugin(tagName, pluginType as keyof PluginSet, plugin);
          this.requestUpdate('loadedPlugins');
          return;
        }
        const url = new URL(plugin.src, window.location.href).toString();
        import(url).then(mod => { ... });
  \<close>
  \<open>absoluteURL\<close> stands for the resolution of \<open>plugin.src\<close> against the location of the
  page.
\<close>

definition loadPlugin ::
  "(string \<Rightarrow> string) \<Rightarrow> (string \<Rightarrow> string) \<Rightarrow> kind \<Rightarrow> Plugin \<Rightarrow>
   ('d, 'e, 'c) page \<Rightarrow> ('d, 'e, 'c) page" where
  "loadPlugin cyrb64 absoluteURL pluginType plugin pg =
     (case pluginTag cyrb64 (src plugin) (pluginTags pg) of
        (tagName, tags) \<Rightarrow>
          (let pg1 = pg\<lparr>pluginTags := tags\<rparr>
           in if tagName \<in> set (loadedPluginTagNames (element pg1)) then pg1
              else if customElements pg1 tagName \<noteq> None then
                pg1\<lparr>element := addLoadedPlugin tagName pluginType plugin (element pg1)\<rparr>
              else
                pg1\<lparr>importCalls := importCalls pg1 @ [absoluteURL (src plugin)],
                    pendingImports := pendingImports pg1 @ [(tagName, pluginType, plugin)]\<rparr>))"

text \<open>
  \<^verbatim>\<open>
  set plugins(plugins: Partial<PluginSet>) {
    Object.entries(plugins).forEach(([pluginType, kind]) =>
      kind.forEach(plugin => { ... })
    );
    this.#plugins = { menu: [], editor: [], ...plugins };
  }
  \<close>
  The assigned \<open>Partial<PluginSet>\<close> is the list of its entries, in the order of
  \<open>Object.entries\<close>; an object has each key once, so the spread takes for each kind the
  array of its entry.
\<close>

definition set_plugins ::
  "(string \<Rightarrow> string) \<Rightarrow> (string \<Rightarrow> string) \<Rightarrow> (kind \<times> Plugin list) list \<Rightarrow>
   ('d, 'e, 'c) page \<Rightarrow> ('d, 'e, 'c) page" where
  "set_plugins cyrb64 absoluteURL assigned pg =
     (let pg1 = foldl (\<lambda>pg0 (pluginType, ps).
                   foldl (\<lambda>pg2 plugin. loadPlugin cyrb64 absoluteURL pluginType plugin pg2) pg0 ps)
                 pg assigned
      in pg1\<lparr>element := (element pg1)
           \<lparr>plugins :=
              \<lparr>menu = (case map_of assigned Menu of None \<Rightarrow> [] | Some ps \<Rightarrow> ps),
               editor = (case map_of assigned Editor of None \<Rightarrow> [] | Some ps \<Rightarrow> ps)\<rparr>\<rparr>\<rparr>)"

text \<open>
  The callback of the \<open>i\<close>-th pending import, run when the module has loaded and its
  default export is \<open>mod_default\<close>:
  \<^verbatim>\<open>
        import(url).then(mod => {
          this.addLoadedPlugin(tagName, pluginType as keyof PluginSet, plugin);
          // Because this is async, we need to check (again) if the element is already defined.
          if (!customElements.get(tagName)) {
            customElements.define(tagName, mod.default);
          }
          this.requestUpdate('loadedPlugins');
        });
  \<close>
\<close>

definition import_resolved :: "nat \<Rightarrow> 'c \<Rightarrow> ('d, 'e, 'c) page \<Rightarrow> ('d, 'e, 'c) page" where
  "import_resolved i mod_default pg =
     (if i < length (pendingImports pg) then
        (case pendingImports pg ! i of
           (tagName, pluginType, plugin) \<Rightarrow>
             (let pg1 = pg\<lparr>pendingImports := take i (pendingImports pg) @ drop (Suc i) (pendingImports pg),
                          element := addLoadedPlugin tagName pluginType plugin (element pg)\<rparr>
              in if customElements pg1 tagName = None then
                   pg1\<lparr>customElements := (customElements pg1)(tagName \<mapsto> mod_default),
                       defineCalls := defineCalls pg1 @ [tagName]\<rparr>
                 else pg1))
      else pg)"

text \<open>An import that fails: the promise is rejected and its callback never runs.\<close>

definition import_rejected :: "nat \<Rightarrow> ('d, 'e, 'c) page \<Rightarrow> ('d, 'e, 'c) page" where
  "import_rejected i pg =
     pg\<lparr>pendingImports := take i (pendingImports pg) @ drop (Suc i) (pendingImports pg)\<rparr>"

text \<open>A freshly loaded page with a new \<open>open-scd\<close> element.\<close>

definition fresh_page :: "'d \<Rightarrow> ('d, 'e, 'c) page" where
  "fresh_page d =
     \<lparr>element = initial d, pluginTags = Map.empty, customElements = Map.empty,
      importCalls = [], defineCalls = [], pendingImports = []\<rparr>"


section \<open>Theorems\<close>

subsection \<open>History\<close>

lemma array_splice_take: "0 \<le> k \<Longrightarrow> array_splice k xs = take (nat k) xs"
  by (auto simp: array_splice_def Let_def min_def)

lemma handleEditEvent_Some:
  assumes "0 \<le> editCount s" and "engine e (domTree s) = Some (d, u)"
  shows "handleEditEvent engine e s =
     Inr (s\<lparr>domTree := d,
            history := take (nat (editCount s)) (history s) @
                       [\<lparr>undo_edit = u, redo_edit = e, title = None\<rparr>],
            editCount := editCount s + 1\<rparr>)"
  using assms by (simp add: handleEditEvent_def array_splice_take)

lemma undo_one:
  assumes "canUndo s" "editCount s \<le> int (length (history s))"
    "engine (undo_edit (history s ! nat (editCount s - 1))) (domTree s) = Some (d, u)"
  shows "undo engine 1 s = Inr (s\<lparr>domTree := d, editCount := editCount s - 1\<rparr>)"
  using assms by (simp add: undo.simps canUndo_def last_index_def at_index_def)

lemma undo_at:
  assumes "editCount s = k + 1" "0 \<le> k" "nat k < length (history s)"
    "engine (undo_edit (history s ! nat k)) (domTree s) = Some (d, u)"
    "s' = s\<lparr>domTree := d, editCount := k\<rparr>"
  shows "undo engine 1 s = Inr s'"
  using assms by (subst undo.simps) (simp add: canUndo_def last_index_def at_index_def)

lemma redo_one:
  assumes "canRedo s" "0 \<le> editCount s"
    "engine (redo_edit (history s ! nat (editCount s))) (domTree s) = Some (d, u)"
  shows "redo engine 1 s = Inr (s\<lparr>domTree := d, editCount := editCount s + 1\<rparr>)"
  using assms by (simp add: redo.simps canRedo_def at_index_def)

lemma redo_last:
  assumes "0 \<le> editCount s" "editCount s + 1 = int (length (history s))" "1 \<le> n"
    "engine (redo_edit (history s ! nat (editCount s))) (domTree s) = Some (d, u)"
  shows "redo engine n s = Inr (s\<lparr>domTree := d, editCount := editCount s + 1\<rparr>)"
proof -
  let ?s' = "s\<lparr>domTree := d, editCount := editCount s + 1\<rparr>"
  have stop: "redo engine (n - 1) ?s' = Inr ?s'"
    using assms(2) by (subst redo.simps) (simp add: canRedo_def)
  show ?thesis
    using assms stop by (subst redo.simps) (simp add: canRedo_def at_index_def Let_def)
qed

lemma handleEditEvent_in_range:
  "cursor_in_range s \<Longrightarrow> cursor_in_range (state_of (handleEditEvent engine e s))"
  by (auto simp: handleEditEvent_def cursor_in_range_def state_of_def array_splice_take Let_def
      split: option.splits)

lemma undo_in_range:
  "cursor_in_range s \<Longrightarrow> cursor_in_range (state_of (undo engine n s))"
proof (induction engine n s rule: undo.induct)
  case (1 engine n s)
  show ?case
    using 1 by (subst undo.simps)
      (auto simp: state_of_def cursor_in_range_def canUndo_def last_index_def Let_def
        split: option.splits)
qed

lemma redo_in_range:
  "cursor_in_range s \<Longrightarrow> cursor_in_range (state_of (redo engine n s))"
proof (induction engine n s rule: redo.induct)
  case (1 engine n s)
  show ?case
    using 1 by (subst redo.simps)
      (auto simp: state_of_def cursor_in_range_def canRedo_def Let_def
        split: option.splits)
qed

lemma history_step_in_range:
  "cursor_in_range s \<Longrightarrow> cursor_in_range (state_of (history_step engine x s))"
  by (cases x) (simp_all add: handleEditEvent_in_range undo_in_range redo_in_range)

lemma run_history_in_range:
  "cursor_in_range s \<Longrightarrow> cursor_in_range (run_history engine xs s)"
  by (induction xs arbitrary: s) (simp_all add: history_step_in_range)

lemma scenario:
  assumes r: "cursor_in_range s"
    and A: "engine A (domTree s) = Some (d1, uA)"
    and B: "engine B d1 = Some (d2, uB)"
    and uB: "engine uB d2 = Some (d3, x)"
    and C: "engine C d3 = Some (d4, uC)"
  shows "and_then (and_then (and_then (handleEditEvent engine A s)
            (handleEditEvent engine B)) (undo engine 1)) (handleEditEvent engine C) =
         Inr (s\<lparr>domTree := d4,
            history := take (nat (editCount s)) (history s) @
                       [\<lparr>undo_edit = uA, redo_edit = A, title = None\<rparr>,
                        \<lparr>undo_edit = uC, redo_edit = C, title = None\<rparr>],
            editCount := editCount s + 2\<rparr>)"
proof -
  let ?k = "nat (editCount s)"
  let ?h = "take ?k (history s)"
  let ?eA = "\<lparr>undo_edit = uA, redo_edit = A, title = None\<rparr>"
  let ?eB = "\<lparr>undo_edit = uB, redo_edit = B, title = None\<rparr>"
  let ?eC = "\<lparr>undo_edit = uC, redo_edit = C, title = None\<rparr>"
  from r have k: "0 \<le> editCount s" "?k \<le> length (history s)" "length ?h = ?k"
    by (auto simp: cursor_in_range_def)
  let ?s1 = "s\<lparr>domTree := d1, history := ?h @ [?eA], editCount := editCount s + 1\<rparr>"
  let ?s2 = "s\<lparr>domTree := d2, history := ?h @ [?eA, ?eB], editCount := editCount s + 2\<rparr>"
  let ?s3 = "s\<lparr>domTree := d3, history := ?h @ [?eA, ?eB], editCount := editCount s + 1\<rparr>"
  let ?s4 = "s\<lparr>domTree := d4, history := ?h @ [?eA, ?eC], editCount := editCount s + 2\<rparr>"
  have 1: "handleEditEvent engine A s = Inr ?s1"
    using handleEditEvent_Some [of s engine A d1 uA] k A by simp
  have 2: "handleEditEvent engine B ?s1 = Inr ?s2"
    using handleEditEvent_Some [of ?s1 engine B d2 uB] k B by simp
  have nth: "(?h @ [?eA, ?eB]) ! nat (editCount s + 1) = ?eB"
    using k by (simp add: nth_append nat_add_distrib)
  have 3: "undo engine 1 ?s2 = Inr ?s3"
  proof (rule undo_at [where k = "editCount s + 1" and u = x])
    show "editCount ?s2 = editCount s + 1 + 1" by simp
    show "0 \<le> editCount s + 1" using k by simp
    show "nat (editCount s + 1) < length (history ?s2)" using k by simp
    show "engine (undo_edit (history ?s2 ! nat (editCount s + 1))) (domTree ?s2) = Some (d3, x)"
      using nth uB by simp
    show "?s3 = ?s2\<lparr>domTree := d3, editCount := editCount s + 1\<rparr>" by simp
  qed
  have 4: "handleEditEvent engine C ?s3 = Inr ?s4"
    using handleEditEvent_Some [of ?s3 engine C d4 uC] k C by (simp add: nat_add_distrib)
  show ?thesis by (simp add: and_then_def 1 2 3 4)
qed

lemma run_history_example:
  "run_history setTextOnly
     [Commit (SetTextContent 0 ''a''), Commit (SetTextContent 0 ''b''), Undo 1,
      Commit (SetTextContent 0 ''c''), Undo 5, Redo 1, Commit (Remove 0)]
     (initial [''x'']) =
   (initial [''a''])\<lparr>history := [\<lparr>undo_edit = SetTextContent 0 ''x'',
       redo_edit = SetTextContent 0 ''a'', title = None\<rparr>], editCount := 1\<rparr>"
  by (simp add: initial_def setTextOnly_def state_of_def
      handleEditEvent_def array_splice_def undo.simps redo.simps canUndo_def canRedo_def
      last_index_def at_index_def)

text \<open>
  C1. A commit (\<open>handleEditEvent\<close>) whose edit the engine applies first drops every log
  entry at an index \<open>\<ge> editCount\<close>, then appends \<open>{undo: inverse, redo: edit}\<close> and adds
  one to \<open>editCount\<close>. Consequently, from any state with the cursor in range, the script
  commit \<open>A\<close>, commit \<open>B\<close>, \<open>undo()\<close>, commit \<open>C\<close> leaves the retained entries followed by
  the entries of \<open>A\<close> and \<open>C\<close> only: the entry of \<open>B\<close> is gone, a \<open>redo\<close> in that state
  replays nothing, and after one \<open>undo()\<close> a \<open>redo(n)\<close> replays \<open>C\<close> and stops, for
  every \<open>n \<ge> 1\<close>.
\<close>

theorem commit_discards_redo_branch:
  "(0 \<le> editCount s \<and> engine e (domTree s) = Some (d, u) \<longrightarrow>
      handleEditEvent engine e s =
        Inr (s\<lparr>domTree := d,
               history := take (nat (editCount s)) (history s) @
                          [\<lparr>undo_edit = u, redo_edit = e, title = None\<rparr>],
               editCount := editCount s + 1\<rparr>)) \<and>
   (cursor_in_range s \<and> engine A (domTree s) = Some (d1, uA) \<and>
    engine B d1 = Some (d2, uB) \<and> engine uB d2 = Some (d3, x) \<and>
    engine C d3 = Some (d4, uC) \<longrightarrow>
      (let s4 = s\<lparr>domTree := d4,
                    history := take (nat (editCount s)) (history s) @
                               [\<lparr>undo_edit = uA, redo_edit = A, title = None\<rparr>,
                                \<lparr>undo_edit = uC, redo_edit = C, title = None\<rparr>],
                    editCount := editCount s + 2\<rparr>
       in and_then (and_then (and_then (handleEditEvent engine A s)
              (handleEditEvent engine B)) (undo engine 1)) (handleEditEvent engine C)
            = Inr s4 \<and>
          redo engine n s4 = Inr s4 \<and>
          (1 \<le> n \<and> engine uC d4 = Some (d5, y) \<and> engine C d5 = Some (d6, z) \<longrightarrow>
             and_then (undo engine 1 s4) (redo engine n) = Inr (s4\<lparr>domTree := d6\<rparr>))))"
proof (intro conjI impI)
  assume "0 \<le> editCount s \<and> engine e (domTree s) = Some (d, u)"
  then show "handleEditEvent engine e s =
        Inr (s\<lparr>domTree := d,
               history := take (nat (editCount s)) (history s) @
                          [\<lparr>undo_edit = u, redo_edit = e, title = None\<rparr>],
               editCount := editCount s + 1\<rparr>)"
    by (simp add: handleEditEvent_Some)
next
  assume h: "cursor_in_range s \<and> engine A (domTree s) = Some (d1, uA) \<and>
    engine B d1 = Some (d2, uB) \<and> engine uB d2 = Some (d3, x) \<and>
    engine C d3 = Some (d4, uC)"
  let ?k = "nat (editCount s)"
  let ?h = "take ?k (history s)"
  let ?eA = "\<lparr>undo_edit = uA, redo_edit = A, title = None\<rparr>"
  let ?eC = "\<lparr>undo_edit = uC, redo_edit = C, title = None\<rparr>"
  let ?s4 = "s\<lparr>domTree := d4, history := ?h @ [?eA, ?eC], editCount := editCount s + 2\<rparr>"
  from h have k: "0 \<le> editCount s" "?k \<le> length (history s)" "length ?h = ?k"
    by (auto simp: cursor_in_range_def)
  have run: "and_then (and_then (and_then (handleEditEvent engine A s)
              (handleEditEvent engine B)) (undo engine 1)) (handleEditEvent engine C)
            = Inr ?s4"
    using h scenario [of s engine A d1 uA B d2 uB d3 x C d4 uC] by simp
  have idle: "redo engine n ?s4 = Inr ?s4"
    using k by (subst redo.simps) (simp add: canRedo_def)
  have again: "and_then (undo engine 1 ?s4) (redo engine n) = Inr (?s4\<lparr>domTree := d6\<rparr>)"
    if n: "1 \<le> n" and uC: "engine uC d4 = Some (d5, y)" and C: "engine C d5 = Some (d6, z)"
  proof -
    let ?s5 = "s\<lparr>domTree := d5, history := ?h @ [?eA, ?eC], editCount := editCount s + 1\<rparr>"
    have nth: "(?h @ [?eA, ?eC]) ! nat (editCount s + 1) = ?eC"
      using k by (simp add: nth_append nat_add_distrib)
    have 5: "undo engine 1 ?s4 = Inr ?s5"
    proof (rule undo_at [where k = "editCount s + 1" and u = y])
      show "editCount ?s4 = editCount s + 1 + 1" by simp
      show "0 \<le> editCount s + 1" using k by simp
      show "nat (editCount s + 1) < length (history ?s4)" using k by simp
      show "engine (undo_edit (history ?s4 ! nat (editCount s + 1))) (domTree ?s4) = Some (d5, y)"
        using nth uC by simp
      show "?s5 = ?s4\<lparr>domTree := d5, editCount := editCount s + 1\<rparr>" by simp
    qed
    have 6: "redo engine n ?s5 = Inr (?s5\<lparr>domTree := d6, editCount := editCount ?s5 + 1\<rparr>)"
    proof (rule redo_last [where u = z])
      show "0 \<le> editCount ?s5" using k by simp
      show "editCount ?s5 + 1 = int (length (history ?s5))" using k by simp
      show "1 \<le> n" by (rule n)
      show "engine (redo_edit (history ?s5 ! nat (editCount ?s5))) (domTree ?s5) = Some (d6, z)"
        using nth C by simp
    qed
    show ?thesis by (simp add: and_then_def 5 6)
  qed
  show "let s4 = ?s4
       in and_then (and_then (and_then (handleEditEvent engine A s)
              (handleEditEvent engine B)) (undo engine 1)) (handleEditEvent engine C)
            = Inr s4 \<and>
          redo engine n s4 = Inr s4 \<and>
          (1 \<le> n \<and> engine uC d4 = Some (d5, y) \<and> engine C d5 = Some (d6, z) \<longrightarrow>
             and_then (undo engine 1 s4) (redo engine n) = Inr (s4\<lparr>domTree := d6\<rparr>))"
    unfolding Let_def
  proof (intro conjI impI)
    show "and_then (and_then (and_then (handleEditEvent engine A s)
              (handleEditEvent engine B)) (undo engine 1)) (handleEditEvent engine C)
            = Inr ?s4" by (rule run)
    show "redo engine n ?s4 = Inr ?s4" by (rule idle)
    assume "1 \<le> n \<and> engine uC d4 = Some (d5, y) \<and> engine C d5 = Some (d6, z)"
    then show "and_then (undo engine 1 ?s4) (redo engine n) = Inr (?s4\<lparr>domTree := d6\<rparr>)"
      using again by simp
  qed
qed

theorem commit_discards_redo_branch_witness:
  "(let s = initial [''x''] :: (string list, edit) OpenSCD;
        A = SetTextContent 0 ''a''; B = SetTextContent 0 ''b''; C = SetTextContent 0 ''c'';
        entry = (\<lambda>old new. \<lparr>undo_edit = SetTextContent 0 old, redo_edit = SetTextContent 0 new,
                   title = None\<rparr>);
        s4 = s\<lparr>domTree := [''c''], history := [entry ''x'' ''a'', entry ''a'' ''c''],
               editCount := 2\<rparr>
    in cursor_in_range s \<and>
       setTextOnly A [''x''] = Some ([''a''], SetTextContent 0 ''x'') \<and>
       setTextOnly B [''a''] = Some ([''b''], SetTextContent 0 ''a'') \<and>
       setTextOnly (SetTextContent 0 ''a'') [''b''] = Some ([''a''], SetTextContent 0 ''b'') \<and>
       setTextOnly C [''a''] = Some ([''c''], SetTextContent 0 ''a'') \<and>
       handleEditEvent setTextOnly A s =
         Inr (s\<lparr>domTree := [''a''], history := [entry ''x'' ''a''], editCount := 1\<rparr>) \<and>
       and_then (and_then (and_then (handleEditEvent setTextOnly A s)
          (handleEditEvent setTextOnly B)) (undo setTextOnly 1)) (handleEditEvent setTextOnly C)
         = Inr s4 \<and>
       redo setTextOnly 1 s4 = Inr s4 \<and>
       and_then (undo setTextOnly 1 s4) (redo setTextOnly 5) = Inr s4)"
  using commit_discards_redo_branch
    [where s = "initial [''x''] :: (string list, edit) OpenSCD" and engine = setTextOnly
       and e = "SetTextContent 0 ''a''" and d = "[''a'']" and u = "SetTextContent 0 ''x''"
       and A = "SetTextContent 0 ''a''" and ?d1.0 = "[''a'']" and uA = "SetTextContent 0 ''x''"
       and B = "SetTextContent 0 ''b''" and ?d2.0 = "[''b'']" and uB = "SetTextContent 0 ''a''"
       and ?d3.0 = "[''a'']" and x = "SetTextContent 0 ''b''"
       and C = "SetTextContent 0 ''c''" and ?d4.0 = "[''c'']" and uC = "SetTextContent 0 ''a''"
       and n = 1 and ?d5.0 = "[''a'']" and y = "SetTextContent 0 ''c''"
       and ?d6.0 = "[''c'']" and z = "SetTextContent 0 ''a''"]
    commit_discards_redo_branch
    [where s = "initial [''x''] :: (string list, edit) OpenSCD" and engine = setTextOnly
       and e = "SetTextContent 0 ''a''" and d = "[''a'']" and u = "SetTextContent 0 ''x''"
       and A = "SetTextContent 0 ''a''" and ?d1.0 = "[''a'']" and uA = "SetTextContent 0 ''x''"
       and B = "SetTextContent 0 ''b''" and ?d2.0 = "[''b'']" and uB = "SetTextContent 0 ''a''"
       and ?d3.0 = "[''a'']" and x = "SetTextContent 0 ''b''"
       and C = "SetTextContent 0 ''c''" and ?d4.0 = "[''c'']" and uC = "SetTextContent 0 ''a''"
       and n = 5 and ?d5.0 = "[''a'']" and y = "SetTextContent 0 ''c''"
       and ?d6.0 = "[''c'']" and z = "SetTextContent 0 ''a''"]
  by (simp add: initial_def setTextOnly_def cursor_in_range_def Let_def)

text \<open>
  C6. Calling \<open>undo n\<close> when \<open>canUndo\<close> is false or \<open>n < 1\<close>, and calling \<open>redo n\<close> when
  \<open>canRedo\<close> is false or \<open>n < 1\<close>, returns normally (it does not throw) and leaves the
  whole state as it was: the DOM, the history and \<open>editCount\<close> are unchanged, and the edit
  engine is not called (the result is the same for every engine).
\<close>

theorem undo_redo_noop:
  "(\<not> canUndo s \<or> n < 1 \<longrightarrow> undo engine n s = Inr s) \<and>
   (\<not> canRedo s \<or> n < 1 \<longrightarrow> redo engine n s = Inr s)"
proof (intro conjI impI)
  assume "\<not> canUndo s \<or> n < 1"
  then show "undo engine n s = Inr s"
    by (subst undo.simps) simp
next
  assume "\<not> canRedo s \<or> n < 1"
  then show "redo engine n s = Inr s"
    by (subst redo.simps) simp
qed

theorem undo_redo_noop_witness:
  "(let s0 = initial [''x''] :: (string list, edit) OpenSCD;
        s1 = s0\<lparr>history := [\<lparr>undo_edit = SetTextContent 0 ''x'',
                 redo_edit = SetTextContent 0 ''a'', title = None\<rparr>]\<rparr>
    in \<not> canUndo s0 \<and> undo setTextOnly 1 s0 = Inr s0 \<and>
       \<not> canRedo s0 \<and> redo setTextOnly 1 s0 = Inr s0 \<and>
       canRedo s1 \<and> (0::int) < 1 \<and> redo setTextOnly 0 s1 = Inr s1)"
  using undo_redo_noop [of "initial [''x''] :: (string list, edit) OpenSCD" 1 setTextOnly]
    undo_redo_noop [of "(initial [''x''] :: (string list, edit) OpenSCD)\<lparr>history :=
       [\<lparr>undo_edit = SetTextContent 0 ''x'', redo_edit = SetTextContent 0 ''a'', title = None\<rparr>]\<rparr>"
       0 setTextOnly]
  by (simp add: initial_def Let_def canUndo_def canRedo_def last_index_def)

text \<open>
  C7. In every state reached by a sequence of commit, undo and redo operations (from the
  initial state, or from any state whose cursor is in range; an operation that throws
  leaves its state behind and the sequence goes on), \<open>editCount\<close> lies in
  \<open>[0, history.length]\<close>, \<open>canUndo\<close> equals \<open>editCount > 0\<close> and \<open>canRedo\<close> equals
  \<open>editCount < history.length\<close>.
\<close>

theorem cursor_stays_in_range:
  assumes "cursor_in_range s0"
  shows "let s = run_history engine ops s0
         in 0 \<le> editCount s \<and> editCount s \<le> int (length (history s)) \<and>
            canUndo s = (editCount s > 0) \<and>
            canRedo s = (editCount s < int (length (history s)))"
proof -
  have "cursor_in_range (run_history engine ops s0)"
    using assms by (rule run_history_in_range)
  then show ?thesis
    by (auto simp: Let_def cursor_in_range_def canUndo_def canRedo_def last_index_def)
qed

theorem cursor_stays_in_range_witness:
  "(let s0 = initial [''x''] :: (string list, edit) OpenSCD;
        s = run_history setTextOnly
              [Commit (SetTextContent 0 ''a''), Commit (SetTextContent 0 ''b''), Undo 1,
               Commit (SetTextContent 0 ''c''), Undo 5, Redo 1, Commit (Remove 0)] s0
    in cursor_in_range s0 \<and> editCount s = 1 \<and> length (history s) = 1 \<and>
       0 \<le> editCount s \<and> editCount s \<le> int (length (history s)) \<and>
       canUndo s = (editCount s > 0) \<and>
       canRedo s = (editCount s < int (length (history s))))"
  using cursor_stays_in_range
    [of "initial [''x''] :: (string list, edit) OpenSCD" setTextOnly
       "[Commit (SetTextContent 0 ''a''), Commit (SetTextContent 0 ''b''), Undo 1,
         Commit (SetTextContent 0 ''c''), Undo 5, Redo 1, Commit (Remove 0)]"]
  unfolding Let_def run_history_example
  by (simp add: initial_def cursor_in_range_def Let_def)

text \<open>
  C8. With \<open>canUndo\<close> true, \<open>undo(1)\<close> hands \<open>history[editCount - 1].undo\<close> to the edit
  engine, drops the inverse the engine returns and subtracts one from \<open>editCount\<close>;
  with \<open>canRedo\<close> true, \<open>redo(1)\<close> hands \<open>history[editCount].redo\<close> to the engine and
  adds one to \<open>editCount\<close>. In both, the resulting state differs from the old one in
  the DOM and the cursor only: the history (its entries and its length) is unchanged.
\<close>

theorem undo_redo_move_cursor_only:
  "(canUndo s \<and> editCount s \<le> int (length (history s)) \<and>
    engine (undo_edit (history s ! nat (editCount s - 1))) (domTree s) = Some (d, u) \<longrightarrow>
      undo engine 1 s = Inr (s\<lparr>domTree := d, editCount := editCount s - 1\<rparr>)) \<and>
   (canRedo s \<and> 0 \<le> editCount s \<and>
    engine (redo_edit (history s ! nat (editCount s))) (domTree s) = Some (d', u') \<longrightarrow>
      redo engine 1 s = Inr (s\<lparr>domTree := d', editCount := editCount s + 1\<rparr>))"
proof (intro conjI impI)
  assume "canUndo s \<and> editCount s \<le> int (length (history s)) \<and>
    engine (undo_edit (history s ! nat (editCount s - 1))) (domTree s) = Some (d, u)"
  then show "undo engine 1 s = Inr (s\<lparr>domTree := d, editCount := editCount s - 1\<rparr>)"
    by (intro undo_one [where u = u]) simp_all
next
  assume "canRedo s \<and> 0 \<le> editCount s \<and>
    engine (redo_edit (history s ! nat (editCount s))) (domTree s) = Some (d', u')"
  then show "redo engine 1 s = Inr (s\<lparr>domTree := d', editCount := editCount s + 1\<rparr>)"
    by (intro redo_one [where u = u']) simp_all
qed

theorem undo_redo_move_cursor_only_witness:
  "(let entry = (\<lambda>old new. \<lparr>undo_edit = SetTextContent 0 old, redo_edit = SetTextContent 0 new,
                   title = None\<rparr>);
        s = (initial [''a''] :: (string list, edit) OpenSCD)
              \<lparr>history := [entry ''x'' ''a'', entry ''a'' ''b''], editCount := 1\<rparr>
    in canUndo s \<and> canRedo s \<and> 0 \<le> editCount s \<and> editCount s \<le> int (length (history s)) \<and>
       setTextOnly (undo_edit (history s ! nat (editCount s - 1))) (domTree s) =
         Some ([''x''], SetTextContent 0 ''a'') \<and>
       setTextOnly (redo_edit (history s ! nat (editCount s))) (domTree s) =
         Some ([''b''], SetTextContent 0 ''a'') \<and>
       undo setTextOnly 1 s = Inr (s\<lparr>domTree := [''x''], editCount := 0\<rparr>) \<and>
       redo setTextOnly 1 s = Inr (s\<lparr>domTree := [''b''], editCount := 2\<rparr>))"
  using undo_redo_move_cursor_only
    [where s = "(initial [''a''] :: (string list, edit) OpenSCD)
              \<lparr>history := [\<lparr>undo_edit = SetTextContent 0 ''x'', redo_edit = SetTextContent 0 ''a'',
                   title = None\<rparr>, \<lparr>undo_edit = SetTextContent 0 ''a'', redo_edit = SetTextContent 0 ''b'',
                   title = None\<rparr>], editCount := 1\<rparr>"
       and engine = setTextOnly and d = "[''x'']" and u = "SetTextContent 0 ''a''"
       and d' = "[''b'']" and u' = "SetTextContent 0 ''a''"]
  by (simp add: initial_def setTextOnly_def Let_def canUndo_def canRedo_def last_index_def)

subsection \<open>The Edit Engine\<close>

lemma handleEdits_steps:
  "handleEdits atomic es d = Some (d', us) \<Longrightarrow>
     length us = length es \<and>
     (\<exists>ds. length ds = Suc (length es) \<and> ds ! 0 = d \<and> ds ! length es = d' \<and>
        (\<forall>k<length es. handleEdit atomic (es ! k) (ds ! k) = Some (ds ! Suc k, us ! k)))"
proof (induction es arbitrary: d d' us)
  case Nil
  then show ?case by (auto intro: exI [of _ "[d]"])
next
  case (Cons e es)
  from Cons.prems obtain d1 u us1 where
    e: "handleEdit atomic e d = Some (d1, u)" and
    es: "handleEdits atomic es d1 = Some (d', us1)" and
    us: "us = u # us1"
    by (auto split: option.splits)
  from Cons.IH [OF es] obtain ds where
    len: "length us1 = length es" and
    ds: "length ds = Suc (length es)" "ds ! 0 = d1" "ds ! length es = d'"
      "\<forall>k<length es. handleEdit atomic (es ! k) (ds ! k) = Some (ds ! Suc k, us1 ! k)"
    by blast
  have "\<forall>k<length (e # es).
          handleEdit atomic ((e # es) ! k) ((d # ds) ! k) = Some ((d # ds) ! Suc k, us ! k)"
  proof (intro allI impI)
    fix k assume "k < length (e # es)"
    then show "handleEdit atomic ((e # es) ! k) ((d # ds) ! k) = Some ((d # ds) ! Suc k, us ! k)"
      using e ds us by (cases k) auto
  qed
  moreover have "length (d # ds) = Suc (length (e # es))" "(d # ds) ! 0 = d"
    "(d # ds) ! length (e # es) = d'" "length us = length (e # es)"
    using ds len us by auto
  ultimately show ?case by blast
qed

text \<open>
  C3. When the engine applies \<open>Compound [e1..en]\<close> successfully, the members are applied in
  order (there are DOM states \<open>ds ! 0 .. ds ! n\<close>, from the initial to the final one, and
  member \<open>k\<close> takes \<open>ds ! k\<close> to \<open>ds ! (k + 1)\<close> with inverse \<open>us ! k\<close>), and the inverse
  returned is the \<open>Compound\<close> of the member inverses in reversed order, \<open>Compound (rev us)\<close>.
\<close>

theorem compound_inverse_reversed:
  assumes "handleEdit atomic (Compound es) d = Some (d', inverse_edit)"
  shows "\<exists>ds us. length ds = Suc (length es) \<and> length us = length es \<and>
           ds ! 0 = d \<and> ds ! length es = d' \<and>
           (\<forall>k<length es. handleEdit atomic (es ! k) (ds ! k) = Some (ds ! Suc k, us ! k)) \<and>
           inverse_edit = Compound (rev us)"
proof -
  from assms obtain us where
    es: "handleEdits atomic es d = Some (d', us)" and inv: "inverse_edit = Compound (rev us)"
    by (auto split: option.splits)
  from handleEdits_steps [OF es] inv show ?thesis by blast
qed

theorem compound_inverse_reversed_witness:
  "handleEdit setTextOnly (Compound [SetTextContent 0 ''a'', SetTextContent 1 ''b'', SetTextContent 0 ''c''])
     [''x'', ''y''] =
     Some ([''c'', ''b''],
           Compound [SetTextContent 0 ''a'', SetTextContent 1 ''y'', SetTextContent 0 ''x'']) \<and>
   (\<exists>ds us. length ds = 4 \<and> length us = (3::nat) \<and> ds ! 0 = [''x'', ''y''] \<and> ds ! 3 = [''c'', ''b''] \<and>
      handleEdit setTextOnly (SetTextContent 0 ''a'') (ds ! 0) = Some (ds ! 1, us ! 0) \<and>
      handleEdit setTextOnly (SetTextContent 1 ''b'') (ds ! 1) = Some (ds ! 2, us ! 1) \<and>
      handleEdit setTextOnly (SetTextContent 0 ''c'') (ds ! 2) = Some (ds ! 3, us ! 2) \<and>
      Compound [SetTextContent 0 ''a'', SetTextContent 1 ''y'', SetTextContent 0 ''x''] =
        Compound (rev us))"
proof -
  have run: "handleEdit setTextOnly
      (Compound [SetTextContent 0 ''a'', SetTextContent 1 ''b'', SetTextContent 0 ''c''])
      [''x'', ''y''] =
     Some ([''c'', ''b''],
           Compound [SetTextContent 0 ''a'', SetTextContent 1 ''y'', SetTextContent 0 ''x''])"
    by (simp add: setTextOnly_def)
  from compound_inverse_reversed [OF run] obtain ds us where
    "length ds = Suc (length [SetTextContent 0 ''a'', SetTextContent 1 ''b'', SetTextContent 0 ''c''])"
    "length us = length [SetTextContent 0 ''a'', SetTextContent 1 ''b'', SetTextContent 0 ''c'']"
    "ds ! 0 = [''x'', ''y'']"
    "ds ! length [SetTextContent 0 ''a'', SetTextContent 1 ''b'', SetTextContent 0 ''c''] = [''c'', ''b'']"
    "\<forall>k<length [SetTextContent 0 ''a'', SetTextContent 1 ''b'', SetTextContent 0 ''c''].
        handleEdit setTextOnly
          ([SetTextContent 0 ''a'', SetTextContent 1 ''b'', SetTextContent 0 ''c''] ! k) (ds ! k) =
        Some (ds ! Suc k, us ! k)"
    "Compound [SetTextContent 0 ''a'', SetTextContent 1 ''y'', SetTextContent 0 ''x''] =
        Compound (rev us)"
    by blast
  then have "length ds = 4 \<and> length us = (3::nat) \<and> ds ! 0 = [''x'', ''y''] \<and> ds ! 3 = [''c'', ''b''] \<and>
      handleEdit setTextOnly (SetTextContent 0 ''a'') (ds ! 0) = Some (ds ! 1, us ! 0) \<and>
      handleEdit setTextOnly (SetTextContent 1 ''b'') (ds ! 1) = Some (ds ! 2, us ! 1) \<and>
      handleEdit setTextOnly (SetTextContent 0 ''c'') (ds ! 2) = Some (ds ! 3, us ! 2) \<and>
      Compound [SetTextContent 0 ''a'', SetTextContent 1 ''y'', SetTextContent 0 ''x''] =
        Compound (rev us)"
    by (simp add: numeral_3_eq_3 numeral_2_eq_2 All_less_Suc del: handleEdit.simps)
  with run show ?thesis by blast
qed

subsection \<open>The wizard request queue\<close>

text \<open>
  C5. In the queue reached from the empty queue by any sequence of wizard events: a request
  with \<open>subWizard\<close> falsy is appended to the end; a request with \<open>subWizard\<close> true is put
  at the front, where it is the active request, with the former queue directly beneath it;
  a close signal removes \<open>workflow[0]\<close> and nothing else (the queue is its first entry
  followed by the queue after the close; closing the empty queue leaves it empty); and the
  active request is \<open>workflow[0]\<close> (none when the queue is empty).
\<close>

theorem wizard_queue_discipline:
  "(let workflow = foldl wizard_step [] events
    in (subWizard r \<noteq> Some True \<longrightarrow> handleWizardRequest r workflow = workflow @ [r]) \<and>
       (subWizard r = Some True \<longrightarrow>
          handleWizardRequest r workflow = r # workflow \<and>
          activeWizard (handleWizardRequest r workflow) = Some r \<and>
          closeWizard c (handleWizardRequest r workflow) = workflow) \<and>
       (workflow \<noteq> [] \<longrightarrow> workflow = workflow ! 0 # closeWizard c workflow) \<and>
       (workflow = [] \<longrightarrow> closeWizard c workflow = []) \<and>
       activeWizard workflow = (if workflow = [] then None else Some (workflow ! 0)))"
  by (cases "foldl wizard_step [] events")
    (simp_all add: Let_def handleWizardRequest_def closeWizard_def activeWizard_def)

theorem wizard_queue_discipline_witness:
  "(let x = EditWizardRequest 1 None; y = EditWizardRequest 2 (Some True);
        z = CreateWizardRequest 3 ''Element'' (Some False);
        workflow = foldl wizard_step [] [Request x, Request y, Request z, Close x]
    in workflow = [x, z] \<and>
       subWizard z \<noteq> Some True \<and> handleWizardRequest z workflow = [x, z, z] \<and>
       subWizard y = Some True \<and> handleWizardRequest y workflow = [y, x, z] \<and>
       activeWizard (handleWizardRequest y workflow) = Some y \<and>
       closeWizard z (handleWizardRequest y workflow) = workflow \<and>
       workflow \<noteq> [] \<and> closeWizard z workflow = [z] \<and>
       foldl wizard_step [] [] = [] \<and> closeWizard x (foldl wizard_step [] []) = [] \<and>
       activeWizard workflow = Some x)"
  using wizard_queue_discipline
      [where r = "CreateWizardRequest 3 ''Element'' (Some False)"
         and events = "[Request (EditWizardRequest 1 None), Request (EditWizardRequest 2 (Some True)),
            Request (CreateWizardRequest 3 ''Element'' (Some False)),
            Close (EditWizardRequest 1 None)]"
         and c = "CreateWizardRequest 3 ''Element'' (Some False)"]
    wizard_queue_discipline
      [where r = "EditWizardRequest 2 (Some True)"
         and events = "[Request (EditWizardRequest 1 None), Request (EditWizardRequest 2 (Some True)),
            Request (CreateWizardRequest 3 ''Element'' (Some False)),
            Close (EditWizardRequest 1 None)]"
         and c = "CreateWizardRequest 3 ''Element'' (Some False)"]
    wizard_queue_discipline
      [where r = "EditWizardRequest 1 None" and events = "[]" and c = "EditWizardRequest 1 None"]
  by (simp add: Let_def handleWizardRequest_def closeWizard_def activeWizard_def)

subsection \<open>Commit with options\<close>








subsection \<open>Opening documents\<close>

lemma lower_char_fixes_all_lower:
  "\<forall>l \<in> set ''abcdefghijklmnopqrstuvwxyz''. lower_char l = l"
  by (simp add: lower_char_def)

lemma lower_char_fixes_lower:
  "l \<in> set ''abcdefghijklmnopqrstuvwxyz'' \<Longrightarrow> lower_char l = l"
  using lower_char_fixes_all_lower by blast

lemma lower_char_range:
  assumes "lower_char c \<noteq> c"
  shows "lower_char c \<in> set ''abcdefghijklmnopqrstuvwxyz''"
proof -
  from assms obtain l where
    m: "map_of (zip ''ABCDEFGHIJKLMNOPQRSTUVWXYZ'' ''abcdefghijklmnopqrstuvwxyz'') c = Some l"
    and l: "lower_char c = l"
    unfolding lower_char_def by (metis option.case_eq_if option.collapse)
  from m have "(c, l) \<in> set (zip ''ABCDEFGHIJKLMNOPQRSTUVWXYZ'' ''abcdefghijklmnopqrstuvwxyz'')"
    by (rule map_of_SomeD)
  then have "l \<in> set ''abcdefghijklmnopqrstuvwxyz''"
    by (rule set_zip_rightD)
  with l show ?thesis by simp
qed

lemma lower_char_idem: "lower_char (lower_char c) = lower_char c"
proof (cases "lower_char c = c")
  case True
  then show ?thesis by simp
next
  case False
  then show ?thesis by (intro lower_char_fixes_lower lower_char_range)
qed

lemma toLowerCase_idem: "toLowerCase (toLowerCase str) = toLowerCase str"
  by (simp add: toLowerCase_def lower_char_idem)

lemma toLowerCase_drop: "toLowerCase (drop n str) = drop n (toLowerCase str)"
  by (simp add: toLowerCase_def drop_map)

lemma endsWith_lower_has_extension:
  assumes "endsWith (toLowerCase name') (''.'' @ ext)"
  shows "has_extension name' ext"
proof -
  from assms have len: "length ext < length name'"
    and eq: "drop (length name' - Suc (length ext)) (toLowerCase name') = ''.'' @ ext"
    by (auto simp: endsWith_def toLowerCase_def)
  have "toLowerCase (''.'' @ ext) = toLowerCase (drop (length name' - Suc (length ext)) (toLowerCase name'))"
    using eq by simp
  also have "\<dots> = toLowerCase (drop (length name' - Suc (length ext)) name')"
    by (simp add: toLowerCase_drop toLowerCase_idem)
  finally show ?thesis using len by (simp add: has_extension_def)
qed

lemma isEditable_has_extension:
  assumes "isEditable s name'"
  shows "\<exists>ext \<in> set (editable s). ext \<noteq> [] \<and> has_extension name' ext"
proof -
  from assms obtain ext where
    f: "find (\<lambda>ext. endsWith (toLowerCase name') (''.'' @ ext)) (editable s) = Some ext"
    and ne: "ext \<noteq> []"
    by (auto simp: isEditable_def split: option.splits)
  from f have "ext \<in> set (editable s)" "endsWith (toLowerCase name') (''.'' @ ext)"
    by (auto simp: find_Some_iff)
  with ne show ?thesis by (blast intro: endsWith_lower_has_extension)
qed

lemma isEditable_case_insensitive:
  "toLowerCase n1 = toLowerCase n2 \<Longrightarrow> isEditable s n1 = isEditable s n2"
  by (simp add: isEditable_def)

lemma docs_assign_ordinary:
  assumes "name' \<noteq> ''__proto__'' \<or> docs s name' \<noteq> None"
    and "docs_proto s = None \<or> docs s name' \<noteq> None"
  shows "docs_assign documentRefuses name' doc s = Inr (s\<lparr>docs := (docs s)(name' \<mapsto> doc)\<rparr>)"
  using assms by (auto simp: docs_assign_def)

lemma isEditable_docs_update [simp]:
  "isEditable (s\<lparr>docs := m\<rparr>) name' = isEditable s name'"
  "isEditable (s\<lparr>docs_proto := q\<rparr>) name' = isEditable s name'"
  by (simp_all add: isEditable_def)

text \<open>
  For every name but \<open>__proto__\<close>, while \<open>docs\<close> still has the prototype it was created
  with (or when the name is already an own property): the document is stored under the
  name, nothing else changes but possibly \<open>docName\<close>, and \<open>docName\<close> becomes the new name
  exactly when \<open>isEditable\<close> holds of it, so only when the name ends, up to the case of
  its letters, in a dot and one of the (non-empty) editable extensions.
\<close>

lemma open_doc_ordinary_name:
  assumes "name' \<noteq> ''__proto__'' \<or> docs s name' \<noteq> None"
    and "docs_proto s = None \<or> docs s name' \<noteq> None"
  shows "handleOpenDoc documentRefuses name' doc s =
           Inr (s\<lparr>docs := (docs s)(name' \<mapsto> doc),
                  docName := (if isEditable s name' then name' else docName s)\<rparr>)"
    and "isEditable s name' \<Longrightarrow>
           \<exists>ext \<in> set (editable s). ext \<noteq> [] \<and> has_extension name' ext"
proof -
  show "handleOpenDoc documentRefuses name' doc s =
           Inr (s\<lparr>docs := (docs s)(name' \<mapsto> doc),
                  docName := (if isEditable s name' then name' else docName s)\<rparr>)"
    by (simp add: handleOpenDoc_def docs_assign_ordinary [OF assms])
  show "isEditable s name' \<Longrightarrow>
           \<exists>ext \<in> set (editable s). ext \<noteq> [] \<and> has_extension name' ext"
    by (rule isEditable_has_extension)
qed

lemma open_doc_examples:
  "(let s = (initial [''x''] :: (string list, edit) OpenSCD)\<lparr>docName := ''a.scd''\<rparr>
    in handleOpenDoc documentRefuses ''Substation.SCD'' 7 s =
         Inr (s\<lparr>docs := (docs s)(''Substation.SCD'' \<mapsto> 7), docName := ''Substation.SCD''\<rparr>) \<and>
       handleOpenDoc documentRefuses ''notes.txt'' 8 s =
         Inr (s\<lparr>docs := (docs s)(''notes.txt'' \<mapsto> 8)\<rparr>))"
proof -
  let ?s = "(initial [''x''] :: (string list, edit) OpenSCD)\<lparr>docName := ''a.scd''\<rparr>"
  have yes: "isEditable ?s ''Substation.SCD''"
    by (simp add: isEditable_def initial_def endsWith_def toLowerCase_def lower_char_def)
  have no: "\<not> isEditable ?s ''notes.txt''"
    by (simp add: isEditable_def initial_def endsWith_def toLowerCase_def lower_char_def)
  have proto: "docs_proto ?s = None" by (simp add: initial_def)
  have 1: "handleOpenDoc documentRefuses ''Substation.SCD'' 7 ?s =
      Inr (?s\<lparr>docs := (docs ?s)(''Substation.SCD'' \<mapsto> 7), docName := ''Substation.SCD''\<rparr>)"
    using open_doc_ordinary_name(1) [of "''Substation.SCD''" ?s documentRefuses 7] yes proto
    by simp
  have 2: "handleOpenDoc documentRefuses ''notes.txt'' 8 ?s =
      Inr (?s\<lparr>docs := (docs ?s)(''notes.txt'' \<mapsto> 8)\<rparr>)"
    using open_doc_ordinary_name(1) [of "''notes.txt''" ?s documentRefuses 8] no proto
    by simp
  show ?thesis unfolding Let_def using 1 2 by simp
qed

lemma endsWith_set: "endsWith str sfx \<Longrightarrow> set sfx \<subseteq> set str"
  by (metis endsWith_def set_drop_subset)

lemma proto_not_editable: "\<not> isEditable s ''__proto__''"
proof
  assume "isEditable s ''__proto__''"
  then obtain ext where
    "find (\<lambda>ext. endsWith (toLowerCase ''__proto__'') (''.'' @ ext)) (editable s) = Some ext"
    by (auto simp: isEditable_def split: option.splits)
  then have "endsWith (toLowerCase ''__proto__'') (''.'' @ ext)"
    by (auto simp: find_Some_iff)
  then have "set (''.'' @ ext) \<subseteq> set (toLowerCase ''__proto__'')"
    by (rule endsWith_set)
  then have "CHR ''.'' \<in> set (toLowerCase ''__proto__'')"
    by auto
  then show False
    by (simp add: toLowerCase_def lower_char_def)
qed

lemma open_doc_proto:
  assumes "docs s ''__proto__'' = None" and "docs_proto s = None"
  shows "handleOpenDoc documentRefuses ''__proto__'' doc s = Inr (s\<lparr>docs_proto := Some doc\<rparr>)"
  using assms by (simp add: handleOpenDoc_def docs_assign_def proto_not_editable)

text \<open>
  C10. The spec has every open-document event store its document under \<open>docName\<close>. For
  the name \<open>__proto__\<close> the code stores nothing: on an element whose \<open>docs\<close> has no own
  property of that name and whose \<open>docs\<close> has not been given a document as prototype
  before (so on every new element), \<open>handleOpenDoc\<close> returns with \<open>docs\<close> holding exactly
  the entries it held, none of them under \<open>__proto__\<close>, and with \<open>doc\<close> made the prototype
  of \<open>docs\<close>; \<open>docName\<close> is left as it was. On the new element \<open>docs\<close> stays empty.
\<close>

theorem open_doc_proto_not_stored:
  "(let s = (initial d :: ('d, 'e) OpenSCD);
        s' = s\<lparr>docs_proto := Some doc\<rparr>
    in handleOpenDoc documentRefuses ''__proto__'' doc s = Inr s' \<and>
       docs s' ''__proto__'' = None \<and> docs s' = Map.empty \<and> docs s' = docs s \<and>
       docName s' = docName s)"
proof -
  let ?s = "initial d :: ('d, 'e) OpenSCD"
  have "docs ?s ''__proto__'' = None" and "docs_proto ?s = None"
    by (simp_all add: initial_def)
  then have "handleOpenDoc documentRefuses ''__proto__'' doc ?s = Inr (?s\<lparr>docs_proto := Some doc\<rparr>)"
    by (rule open_doc_proto)
  then show ?thesis
    unfolding Let_def by (simp add: initial_def)
qed

subsection \<open>The plugin registry\<close>




lemma addLoadedPlugin_plugins: "plugins (addLoadedPlugin tagName pluginType plugin s) = plugins s"
  by (simp add: addLoadedPlugin_def)









subsection \<open>Plugin tags and registry bindings\<close>

lemma pluginTag_cached:
  "pluginTag cyrb64 uri (snd (pluginTag cyrb64 uri tags)) = pluginTag cyrb64 uri tags"
  by (simp add: pluginTag_def split: option.splits)

lemma pluginTag_from_hash:
  assumes "\<forall>u t. tags u = Some t \<longrightarrow> t = ''oscd-p'' @ cyrb64 u"
  shows "fst (pluginTag cyrb64 uri tags) = ''oscd-p'' @ cyrb64 uri \<and>
         (\<forall>u t. snd (pluginTag cyrb64 uri tags) u = Some t \<longrightarrow> t = ''oscd-p'' @ cyrb64 u)"
  using assms by (auto simp: pluginTag_def split: option.splits)

lemma import_resolved_keeps_binding:
  "customElements pg tag = Some c \<Longrightarrow> customElements (import_resolved i mod_default pg) tag = Some c"
  by (auto simp: import_resolved_def Let_def split: prod.splits)

lemma import_resolved_defines_unbound_only:
  "defineCalls (import_resolved i mod_default pg) = defineCalls pg \<or>
   (\<exists>tag. customElements pg tag = None \<and>
      defineCalls (import_resolved i mod_default pg) = defineCalls pg @ [tag] \<and>
      customElements (import_resolved i mod_default pg) tag = Some mod_default)"
  by (auto simp: import_resolved_def Let_def split: prod.splits)

lemma loadPlugin_first:
  assumes "pluginTags pg (src plugin) = None"
    "''oscd-p'' @ cyrb64 (src plugin) \<notin> set (loadedPluginTagNames (element pg))"
    "customElements pg (''oscd-p'' @ cyrb64 (src plugin)) = None"
  shows "loadPlugin cyrb64 absoluteURL pluginType plugin pg =
     pg\<lparr>pluginTags := (pluginTags pg)(src plugin \<mapsto> ''oscd-p'' @ cyrb64 (src plugin)),
        importCalls := importCalls pg @ [absoluteURL (src plugin)],
        pendingImports := pendingImports pg @ [(''oscd-p'' @ cyrb64 (src plugin), pluginType, plugin)]\<rparr>"
  using assms by (simp add: loadPlugin_def pluginTag_def Let_def)

lemma loadPlugin_again:
  assumes "pluginTags pg (src plugin) = Some tag"
    "tag \<notin> set (loadedPluginTagNames (element pg))"
    "customElements pg tag = None"
  shows "loadPlugin cyrb64 absoluteURL pluginType plugin pg =
     pg\<lparr>importCalls := importCalls pg @ [absoluteURL (src plugin)],
        pendingImports := pendingImports pg @ [(tag, pluginType, plugin)]\<rparr>"
  using assms by (simp add: loadPlugin_def pluginTag_def Let_def)

lemma two_loads_of_one_src:
  assumes "src q = src p"
  shows "loadPlugin cyrb64 absoluteURL k2 q (loadPlugin cyrb64 absoluteURL k1 p (fresh_page d :: ('d, 'e, 'c) page)) =
     (fresh_page d :: ('d, 'e, 'c) page)
       \<lparr>pluginTags := [src p \<mapsto> ''oscd-p'' @ cyrb64 (src p)],
        importCalls := [absoluteURL (src p), absoluteURL (src p)],
        pendingImports := [(''oscd-p'' @ cyrb64 (src p), k1, p), (''oscd-p'' @ cyrb64 (src p), k2, q)]\<rparr>"
proof -
  let ?tag = "''oscd-p'' @ cyrb64 (src p)"
  let ?pg1 = "(fresh_page d :: ('d, 'e, 'c) page)
       \<lparr>pluginTags := [src p \<mapsto> ?tag], importCalls := [absoluteURL (src p)],
        pendingImports := [(?tag, k1, p)]\<rparr>"
  have 1: "loadPlugin cyrb64 absoluteURL k1 p (fresh_page d :: ('d, 'e, 'c) page) = ?pg1"
    by (simp add: loadPlugin_first fresh_page_def initial_def)
  have 2: "loadPlugin cyrb64 absoluteURL k2 q ?pg1 =
      ?pg1\<lparr>importCalls := importCalls ?pg1 @ [absoluteURL (src q)],
            pendingImports := pendingImports ?pg1 @ [(?tag, k2, q)]\<rparr>"
    using loadPlugin_again [where pg = ?pg1 and plugin = q and tag = ?tag
        and absoluteURL = absoluteURL and pluginType = k2]
    by (simp add: assms fresh_page_def initial_def)
  show ?thesis unfolding 1 2 by (simp add: assms)
qed

lemma two_imports_resolved:
  assumes "pendingImports pg = [(tag, k1, p), (tag, k2, q)]" "customElements pg tag = None"
  shows "import_resolved 0 c (import_resolved 0 c pg) =
     pg\<lparr>pendingImports := [],
        element := addLoadedPlugin tag k2 q (addLoadedPlugin tag k1 p (element pg)),
        customElements := (customElements pg)(tag \<mapsto> c),
        defineCalls := defineCalls pg @ [tag]\<rparr>"
  using assms by (simp add: import_resolved_def Let_def)

text \<open>
  C4. On a freshly loaded page, assigning two plugins with the same \<open>src\<close> (the same
  descriptor twice under \<open>menu\<close>, or a descriptor under \<open>menu\<close> and one of another name
  under \<open>editor\<close>) calls \<open>import\<close> twice for the one URL: when the second plugin is
  processed the first import has not settled, so the tag is neither in the list of loaded
  tag names nor bound in the registry. Once both imports have resolved, the tag has been
  bound by one \<open>define\<close> call, and the tag name is in the loaded list twice, with both
  descriptors loaded. The spec asks for exactly one module load.
\<close>

theorem same_src_twice_requests_two_imports:
  "(let tag = ''oscd-p'' @ cyrb64 (src p); url = absoluteURL (src p); q = p\<lparr>name := n\<rparr>;
        pg1 = set_plugins cyrb64 absoluteURL [(Menu, [p, p])] (fresh_page d :: ('d, 'e, 'c) page);
        pg2 = import_resolved 0 c (import_resolved 0 c pg1);
        pg3 = set_plugins cyrb64 absoluteURL [(Menu, [p]), (Editor, [q])] (fresh_page d :: ('d, 'e, 'c) page);
        pg4 = import_resolved 0 c (import_resolved 0 c pg3)
    in importCalls pg1 = [url, url] \<and>
       pendingImports pg1 = [(tag, Menu, p), (tag, Menu, p)] \<and>
       loadedPluginTagNames (element pg1) = [] \<and>
       plugins (element pg1) = \<lparr>menu = [p, p], editor = []\<rparr> \<and>
       defineCalls pg2 = [tag] \<and> customElements pg2 tag = Some c \<and>
       loadedPlugins (element pg2) = \<lparr>menu = [p, p], editor = []\<rparr> \<and>
       loadedPluginTagNames (element pg2) = [tag, tag] \<and>
       importCalls pg3 = [url, url] \<and>
       defineCalls pg4 = [tag] \<and>
       loadedPlugins (element pg4) = \<lparr>menu = [p], editor = [q]\<rparr> \<and>
       loadedPluginTagNames (element pg4) = [tag, tag])"
proof -
  let ?tag = "''oscd-p'' @ cyrb64 (src p)"
  let ?url = "absoluteURL (src p)"
  let ?q = "p\<lparr>name := n\<rparr>"
  let ?P1 = "(fresh_page d :: ('d, 'e, 'c) page)
       \<lparr>pluginTags := [src p \<mapsto> ?tag], importCalls := [?url, ?url],
        pendingImports := [(?tag, Menu, p), (?tag, Menu, p)],
        element := (initial d)\<lparr>plugins := \<lparr>menu = [p, p], editor = []\<rparr>\<rparr>\<rparr>"
  let ?P3 = "(fresh_page d :: ('d, 'e, 'c) page)
       \<lparr>pluginTags := [src p \<mapsto> ?tag], importCalls := [?url, ?url],
        pendingImports := [(?tag, Menu, p), (?tag, Editor, ?q)],
        element := (initial d)\<lparr>plugins := \<lparr>menu = [p], editor = [?q]\<rparr>\<rparr>\<rparr>"
  have pg1: "set_plugins cyrb64 absoluteURL [(Menu, [p, p])] (fresh_page d :: ('d, 'e, 'c) page) = ?P1"
    by (simp add: set_plugins_def two_loads_of_one_src) (simp add: fresh_page_def)
  have pg3: "set_plugins cyrb64 absoluteURL [(Menu, [p]), (Editor, [?q])] (fresh_page d :: ('d, 'e, 'c) page) = ?P3"
    by (simp add: set_plugins_def two_loads_of_one_src) (simp add: fresh_page_def)
  have pg2: "import_resolved 0 c (import_resolved 0 c ?P1) =
     ?P1\<lparr>pendingImports := [],
        element := addLoadedPlugin ?tag Menu p (addLoadedPlugin ?tag Menu p (element ?P1)),
        customElements := (customElements ?P1)(?tag \<mapsto> c),
        defineCalls := defineCalls ?P1 @ [?tag]\<rparr>"
    using two_imports_resolved [where pg = ?P1 and tag = ?tag and ?k1.0 = Menu and p = p
        and ?k2.0 = Menu and q = p and c = c]
    by (simp add: fresh_page_def)
  have pg4: "import_resolved 0 c (import_resolved 0 c ?P3) =
     ?P3\<lparr>pendingImports := [],
        element := addLoadedPlugin ?tag Editor ?q (addLoadedPlugin ?tag Menu p (element ?P3)),
        customElements := (customElements ?P3)(?tag \<mapsto> c),
        defineCalls := defineCalls ?P3 @ [?tag]\<rparr>"
    using two_imports_resolved [where pg = ?P3 and tag = ?tag and ?k1.0 = Menu and p = p
        and ?k2.0 = Editor and q = ?q and c = c]
    by (simp add: fresh_page_def)
  show ?thesis
    unfolding Let_def pg1 pg3 pg2 pg4
    by (simp add: fresh_page_def initial_def addLoadedPlugin_def)
qed

end
